theory Spec2Isabelle
  imports Main "HOL-Library.Sublist"
begin

section \<open>Geometry\<close>

text \<open>
  The constants of the build configuration (header \<^verbatim>\<open>MemoryConstants.h\<close>) are parameters
  of the whole development: a record of the three widths, from which the derived sizes are
  computed as the specification's table of section 2 gives them.

  Unsigned 64-bit quantities of the source (virtual addresses, page numbers, depths, slot
  offsets) are natural numbers; \<^verbatim>\<open>word_t\<close> and \<^verbatim>\<open>int\<close> values (memory words, frame
  indices, the cyclic distance, the priority) are integers. Physical addresses are integers
  as well, since the source computes them as \<^verbatim>\<open>frame * PAGE_SIZE + offset\<close> from a signed
  frame index. Following section 3 of the specification, the machine types are taken to be
  wide enough for the geometry, so no arithmetic wraps.
\<close>

record geometry =
  OFFSET_WIDTH :: nat
  PHYSICAL_ADDRESS_WIDTH :: nat
  VIRTUAL_ADDRESS_WIDTH :: nat

text \<open>Modelled from the spec: the derived constants of \<^verbatim>\<open>MemoryConstants.h\<close>, which is not
  among the sources.\<close>

definition PAGE_SIZE :: "geometry \<Rightarrow> nat" where
  "PAGE_SIZE g = 2 ^ OFFSET_WIDTH g"

definition NUM_FRAMES :: "geometry \<Rightarrow> nat" where
  "NUM_FRAMES g = 2 ^ (PHYSICAL_ADDRESS_WIDTH g - OFFSET_WIDTH g)"

definition VIRTUAL_MEMORY_SIZE :: "geometry \<Rightarrow> nat" where
  "VIRTUAL_MEMORY_SIZE g = 2 ^ VIRTUAL_ADDRESS_WIDTH g"

definition NUM_PAGES :: "geometry \<Rightarrow> nat" where
  "NUM_PAGES g = VIRTUAL_MEMORY_SIZE g div PAGE_SIZE g"

definition TABLES_DEPTH :: "geometry \<Rightarrow> nat" where
  "TABLES_DEPTH g =
     (VIRTUAL_ADDRESS_WIDTH g - OFFSET_WIDTH g + OFFSET_WIDTH g - 1) div OFFSET_WIDTH g"



section \<open>The physical memory collaborator\<close>

text \<open>
  Modelled from the spec: \<^verbatim>\<open>PhysicalMemory.h\<close> and its implementation are not among the
  sources. Section 6 of the specification gives the four operations; the state is the word
  store, the backing store (page number to saved page contents) and, to speak about the
  order of the operations, the list of operations performed so far.
\<close>

datatype pm_event =
  EvRead int
| EvWrite int int
| EvEvict int nat
| EvRestore int nat

record pm_state =
  ram :: "int \<Rightarrow> int"
  swapFile :: "nat \<Rightarrow> (nat \<Rightarrow> int) option"
  pm_trace :: "pm_event list"

definition PMread :: "int \<Rightarrow> pm_state \<Rightarrow> int \<times> pm_state" where
  "PMread pa s = (ram s pa, s\<lparr>pm_trace := pm_trace s @ [EvRead pa]\<rparr>)"

definition PMwrite :: "int \<Rightarrow> int \<Rightarrow> pm_state \<Rightarrow> pm_state" where
  "PMwrite pa w s = s\<lparr>ram := (ram s)(pa := w), pm_trace := pm_trace s @ [EvWrite pa w]\<rparr>"

definition PMevict :: "geometry \<Rightarrow> int \<Rightarrow> nat \<Rightarrow> pm_state \<Rightarrow> pm_state" where
  "PMevict g frame page s =
     s\<lparr>swapFile := (swapFile s)(page \<mapsto> (\<lambda>off. ram s (frame * int (PAGE_SIZE g) + int off))),
       pm_trace := pm_trace s @ [EvEvict frame page]\<rparr>"

definition PMrestore :: "geometry \<Rightarrow> int \<Rightarrow> nat \<Rightarrow> pm_state \<Rightarrow> pm_state" where
  "PMrestore g frame page s =
     s\<lparr>ram := (\<lambda>pa. if frame * int (PAGE_SIZE g) \<le> pa \<and>
                       pa < frame * int (PAGE_SIZE g) + int (PAGE_SIZE g)
                    then (case swapFile s page of
                            None \<Rightarrow> 0
                          | Some saved \<Rightarrow> saved (nat (pa - frame * int (PAGE_SIZE g))))
                    else ram s pa),
       pm_trace := pm_trace s @ [EvRestore frame page]\<rparr>"

section \<open>The translator\<close>

subsection \<open>Search arguments, address splitting, cyclic distance\<close>

record SearchArguments =
  currentFrame :: int
  maxFrame :: int
  pageNumber :: nat
  maxCyclicFrame :: int
  maxCyclicDist :: int
  maxCyclicPage :: nat
  maxCyclicParent :: int
  emptyFrame :: int
  priority :: int

text \<open>
  \<^verbatim>\<open>init_offsets\<close> fills the array from index \<^verbatim>\<open>TABLES_DEPTH\<close> down to 0; the loop is a
  recursion on the number of entries still to write, the array a list updated by index.
\<close>

fun init_offsets_loop :: "geometry \<Rightarrow> nat \<Rightarrow> nat \<Rightarrow> nat list \<Rightarrow> nat list" where
  "init_offsets_loop g 0 virtualAddress offsets = offsets"
| "init_offsets_loop g (Suc i) virtualAddress offsets =
     init_offsets_loop g i (virtualAddress div 2 ^ OFFSET_WIDTH g)
       (offsets[i := virtualAddress mod PAGE_SIZE g])"

definition init_offsets :: "geometry \<Rightarrow> nat \<Rightarrow> nat list" where
  "init_offsets g virtualAddress =
     init_offsets_loop g (TABLES_DEPTH g + 1) virtualAddress (replicate (TABLES_DEPTH g + 1) 0)"

definition cyclic_distance :: "geometry \<Rightarrow> nat \<Rightarrow> nat \<Rightarrow> int" where
  "cyclic_distance g page_swapped_in p =
     (let abs_distance = (if page_swapped_in > p then page_swapped_in - p
                          else p - page_swapped_in)
      in if int abs_distance < int (NUM_PAGES g) - int abs_distance
         then int abs_distance
         else int (NUM_PAGES g) - int abs_distance)"

definition update_max_cyclic_distance ::
  "geometry \<Rightarrow> SearchArguments \<Rightarrow> int \<Rightarrow> nat \<Rightarrow> int \<Rightarrow> nat \<Rightarrow> SearchArguments" where
  "update_max_cyclic_distance g args rootFrame currentVirtual parent offset =
     (let cyclicDist = cyclic_distance g (pageNumber args) currentVirtual
      in if cyclicDist \<ge> maxCyclicDist args
         then args\<lparr>maxCyclicFrame := rootFrame,
                   maxCyclicDist := cyclicDist,
                   maxCyclicPage := currentVirtual,
                   maxCyclicParent := parent * int (PAGE_SIZE g) + int offset\<rparr>
         else args)"

definition empty_frame_not_found ::
  "geometry \<Rightarrow> SearchArguments \<Rightarrow> pm_state \<Rightarrow> SearchArguments \<times> pm_state" where
  "empty_frame_not_found g args s =
     (if maxFrame args + 1 < int (NUM_FRAMES g) then (args\<lparr>priority := 2\<rparr>, s)
      else
        let s1 = PMwrite (maxCyclicParent args) 0 s;
            s2 = PMevict g (maxCyclicFrame args) (maxCyclicPage args) s1
        in (args\<lparr>priority := 3\<rparr>, s2))"

subsection \<open>The frame finder\<close>

text \<open>
  The first loop of \<^verbatim>\<open>find_next_frame\<close>: reads the slots in turn and stops at the first
  non-zero one.
\<close>

fun frame_is_empty :: "geometry \<Rightarrow> int \<Rightarrow> nat list \<Rightarrow> pm_state \<Rightarrow> bool \<times> pm_state" where
  "frame_is_empty g rootFrame [] s = (True, s)"
| "frame_is_empty g rootFrame (i # is) s =
     (let (v, s1) = PMread (rootFrame * int (PAGE_SIZE g) + int i) s
      in if v \<noteq> 0 then (False, s1) else frame_is_empty g rootFrame is s1)"

text \<open>
  \<^verbatim>\<open>find_next_frame\<close> and its second loop, \<open>search_slots\<close>, which returns whether the
  function has returned from inside the loop. The source tests \<^verbatim>\<open>depth == TABLES_DEPTH\<close>;
  the traversal starts at depth 0 and descends one level per call, so that a depth beyond
  \<^verbatim>\<open>TABLES_DEPTH\<close> does not occur. The model gives that case a branch of its own, which
  returns at once.
\<close>

function find_next_frame ::
    "geometry \<Rightarrow> SearchArguments \<Rightarrow> int \<Rightarrow> nat \<Rightarrow> int \<Rightarrow> nat \<Rightarrow> nat \<Rightarrow> pm_state
       \<Rightarrow> SearchArguments \<times> pm_state"
  and search_slots ::
    "geometry \<Rightarrow> SearchArguments \<Rightarrow> int \<Rightarrow> nat \<Rightarrow> nat \<Rightarrow> nat list \<Rightarrow> pm_state
       \<Rightarrow> bool \<times> SearchArguments \<times> pm_state"
where
  "find_next_frame g args rootFrame currentVirtual parent depth offset s =
     (if depth = TABLES_DEPTH g
      then (update_max_cyclic_distance g args rootFrame currentVirtual parent offset, s)
      else if TABLES_DEPTH g < depth then (args, s)
      else
        (case frame_is_empty g rootFrame [0..<PAGE_SIZE g] s of
           (isCurrentRootEmpty, s1) \<Rightarrow>
             if rootFrame \<noteq> 0 \<and> rootFrame \<noteq> currentFrame args \<and> isCurrentRootEmpty
             then (args\<lparr>emptyFrame := rootFrame, priority := 1\<rparr>,
                   PMwrite (parent * int (PAGE_SIZE g) + int offset) 0 s1)
             else
               (case search_slots g args rootFrame currentVirtual depth [0..<PAGE_SIZE g] s1 of
                  (returned, args2, s2) \<Rightarrow>
                    if returned then (args2, s2)
                    else if rootFrame = 0 then empty_frame_not_found g args2 s2
                    else (args2, s2))))"
| "search_slots g args rootFrame currentVirtual depth [] s = (False, args, s)"
| "search_slots g args rootFrame currentVirtual depth (i # is) s =
     (case PMread (rootFrame * int (PAGE_SIZE g) + int i) s of
        (nextFrame, s1) \<Rightarrow>
          if nextFrame \<noteq> 0
          then
            (case find_next_frame g
                    (if nextFrame \<ge> maxFrame args then args\<lparr>maxFrame := nextFrame\<rparr> else args)
                    nextFrame (currentVirtual * PAGE_SIZE g + i) rootFrame (depth + 1) i s1 of
               (args2, s2) \<Rightarrow>
                 if priority args2 = 1 then (True, args2, s2)
                 else search_slots g args2 rootFrame currentVirtual depth is s2)
          else search_slots g args rootFrame currentVirtual depth is s1)"
  by pat_completeness auto
termination
  by (relation "measures
        [\<lambda>x. case x of
               Inl (g, args, rootFrame, cv, parent, depth, offset, s) \<Rightarrow> Suc (TABLES_DEPTH g) - depth
             | Inr (g, args, rootFrame, cv, depth, is, s) \<Rightarrow> TABLES_DEPTH g - depth,
         \<lambda>x. case x of
               Inl _ \<Rightarrow> 0
             | Inr (g, args, rootFrame, cv, depth, is, s) \<Rightarrow> Suc (length is)]") auto

declare find_next_frame.simps [simp del]

subsection \<open>The page walk\<close>

text \<open>The loop that writes zero into every slot of a frame.\<close>

definition zero_frame :: "geometry \<Rightarrow> int \<Rightarrow> pm_state \<Rightarrow> pm_state" where
  "zero_frame g frame s =
     fold (\<lambda>j. PMwrite (frame * int (PAGE_SIZE g) + int j) 0) [0..<PAGE_SIZE g] s"

text \<open>
  The three assignments to \<^verbatim>\<open>nextFrame\<close> after the finder has returned and
  \<^verbatim>\<open>maxFrame\<close> has been incremented.
\<close>

definition chosen_frame :: "SearchArguments \<Rightarrow> int \<Rightarrow> int" where
  "chosen_frame args nextFrame =
     (if priority args = 1 then emptyFrame args
      else if priority args = 2 then maxFrame args
      else if priority args = 3 then maxCyclicFrame args
      else nextFrame)"

text \<open>
  One iteration of the loop of \<^verbatim>\<open>find_physical_address\<close>, on the loop's variables
  \<^verbatim>\<open>args\<close> and \<^verbatim>\<open>nextFrame\<close> and the physical memory.
\<close>

definition walk_step ::
  "geometry \<Rightarrow> nat \<Rightarrow> nat list \<Rightarrow> nat \<Rightarrow> SearchArguments \<times> int \<times> pm_state
     \<Rightarrow> SearchArguments \<times> int \<times> pm_state" where
  "walk_step g pageNo offsets i st =
     (case st of (args, nextFrame0, s) \<Rightarrow>
        (case PMread (currentFrame args * int (PAGE_SIZE g) + int (offsets ! i)) s of
           (nextFrame, s1) \<Rightarrow>
             (case (if nextFrame = 0
                    then
                      (case find_next_frame g args 0 0 0 0 0 s1 of
                         (args1, s2) \<Rightarrow>
                           let args2 = args1\<lparr>maxFrame := maxFrame args1 + 1\<rparr>;
                               nextFrame2 = chosen_frame args2 nextFrame;
                               s3 = PMwrite (currentFrame args2 * int (PAGE_SIZE g)
                                               + int (offsets ! i)) nextFrame2 s2;
                               s4 = (if i + 1 = TABLES_DEPTH g
                                     then PMrestore g nextFrame2 (pageNumber args2) s3
                                     else zero_frame g nextFrame2 s3)
                           in (nextFrame2, s4))
                    else (nextFrame, s1)) of
                (nextFrame3, s5) \<Rightarrow>
                  (\<lparr>currentFrame = nextFrame3, maxFrame = 0, pageNumber = pageNo,
                    maxCyclicFrame = 0, maxCyclicDist = 0, maxCyclicPage = 0,
                    maxCyclicParent = 0, emptyFrame = 0, priority = 0\<rparr>,
                   nextFrame3, s5))))"

definition initial_args :: "nat \<Rightarrow> SearchArguments" where
  "initial_args pageNo =
     \<lparr>currentFrame = 0, maxFrame = 0, pageNumber = pageNo,
      maxCyclicFrame = 0, maxCyclicDist = 0, maxCyclicPage = 0,
      maxCyclicParent = 0, emptyFrame = 0, priority = 0\<rparr>"

text \<open>The state of the loop after its first \<open>n\<close> iterations.\<close>

definition walk_steps ::
  "geometry \<Rightarrow> nat \<Rightarrow> nat list \<Rightarrow> nat \<Rightarrow> pm_state \<Rightarrow> SearchArguments \<times> int \<times> pm_state" where
  "walk_steps g virtualAddress offsets n s =
     (let pageNo = virtualAddress div 2 ^ OFFSET_WIDTH g
      in fold (walk_step g pageNo offsets) [0..<n] (initial_args pageNo, 0, s))"

definition find_physical_address ::
  "geometry \<Rightarrow> nat \<Rightarrow> nat list \<Rightarrow> pm_state \<Rightarrow> int \<times> pm_state" where
  "find_physical_address g virtualAddress offsets s =
     (case walk_steps g virtualAddress offsets (TABLES_DEPTH g) s of
        (args, nextFrame, s') \<Rightarrow> (nextFrame, s'))"

subsection \<open>The public interface\<close>

definition VMinitialize :: "geometry \<Rightarrow> pm_state \<Rightarrow> pm_state" where
  "VMinitialize g s = fold (\<lambda>i. PMwrite (int i) 0) [0..<PAGE_SIZE g] s"

text \<open>
  \<^verbatim>\<open>VMread\<close> returns its status and the content of \<^verbatim>\<open>*value\<close> after the call, which
  is the content before the call when the read fails.
\<close>

definition VMread :: "geometry \<Rightarrow> nat \<Rightarrow> int \<Rightarrow> pm_state \<Rightarrow> int \<times> int \<times> pm_state" where
  "VMread g virtualAddress val s =
     (if virtualAddress \<ge> VIRTUAL_MEMORY_SIZE g then (0, val, s)
      else if virtualAddress div 2 ^ OFFSET_WIDTH g \<ge> NUM_PAGES g then (0, val, s)
      else
        let offsets = init_offsets g virtualAddress
        in (case find_physical_address g virtualAddress offsets s of
              (physical_address, s1) \<Rightarrow>
                (case PMread (physical_address * int (PAGE_SIZE g)
                                + int (offsets ! TABLES_DEPTH g)) s1 of
                   (val', s2) \<Rightarrow> (1, val', s2))))"

definition VMwrite :: "geometry \<Rightarrow> nat \<Rightarrow> int \<Rightarrow> pm_state \<Rightarrow> int \<times> pm_state" where
  "VMwrite g virtualAddress val s =
     (if virtualAddress \<ge> VIRTUAL_MEMORY_SIZE g then (0, s)
      else if virtualAddress div 2 ^ OFFSET_WIDTH g \<ge> NUM_PAGES g then (0, s)
      else
        let offsets = init_offsets g virtualAddress
        in (case find_physical_address g virtualAddress offsets s of
              (physical_address, s1) \<Rightarrow>
                (1, PMwrite (physical_address * int (PAGE_SIZE g)
                               + int (offsets ! TABLES_DEPTH g)) val s1)))"

section \<open>Runs of the interface\<close>

text \<open>
  A client's calls after \<^verbatim>\<open>VMinitialize\<close>, and the states they lead to.
\<close>

datatype vm_op = OpRead nat | OpWrite nat int

definition vm_step :: "geometry \<Rightarrow> vm_op \<Rightarrow> pm_state \<Rightarrow> pm_state" where
  "vm_step g op s =
     (case op of
        OpRead v \<Rightarrow> snd (snd (VMread g v 0 s))
      | OpWrite v x \<Rightarrow> snd (VMwrite g v x s))"

definition vm_run :: "geometry \<Rightarrow> vm_op list \<Rightarrow> pm_state \<Rightarrow> pm_state" where
  "vm_run g ops s = fold (vm_step g) ops (VMinitialize g s)"

section \<open>Example configurations\<close>

text \<open>
  A geometry with a one-level table and a single frame besides the root, and the state
  reached in it from a blank memory by \<^verbatim>\<open>VMinitialize\<close> and one read of address 0.
\<close>

definition g_small :: geometry where
  "g_small = \<lparr>OFFSET_WIDTH = 1, PHYSICAL_ADDRESS_WIDTH = 2, VIRTUAL_ADDRESS_WIDTH = 2\<rparr>"

definition s_blank :: pm_state where
  "s_blank = \<lparr>ram = (\<lambda>_. 0), swapFile = (\<lambda>_. None), pm_trace = []\<rparr>"

definition s_one :: pm_state where
  "s_one = vm_run g_small [OpRead 0] s_blank"






definition g_tall :: geometry where
  "g_tall = \<lparr>OFFSET_WIDTH = 1, PHYSICAL_ADDRESS_WIDTH = 2, VIRTUAL_ADDRESS_WIDTH = 4\<rparr>"


section \<open>The page-table tree and the order of the search\<close>

text \<open>
  The frame reached from frame \<open>f\<close> by following the slots \<open>js\<close> in the word store \<open>r\<close>;
  a zero slot on the way ends the walk.
\<close>

fun walk :: "geometry \<Rightarrow> (int \<Rightarrow> int) \<Rightarrow> int \<Rightarrow> nat list \<Rightarrow> int option" where
  "walk g r f [] = Some f"
| "walk g r f (j # js) =
     (if r (f * int (PAGE_SIZE g) + int j) = 0 then None
      else walk g r (r (f * int (PAGE_SIZE g) + int j)) js)"

text \<open>A path of the tree: at most \<^verbatim>\<open>TABLES_DEPTH\<close> slot indices.\<close>

definition valid_path :: "geometry \<Rightarrow> nat list \<Rightarrow> bool" where
  "valid_path g js \<longleftrightarrow> length js \<le> TABLES_DEPTH g \<and> list_all (\<lambda>j. j < PAGE_SIZE g) js"


definition frame_zero :: "geometry \<Rightarrow> (int \<Rightarrow> int) \<Rightarrow> int \<Rightarrow> bool" where
  "frame_zero g r f = list_all (\<lambda>i. r (f * int (PAGE_SIZE g) + int i) = 0) [0..<PAGE_SIZE g]"

text \<open>
  What the search knows of a frame when it enters it: the frame, the page number of its
  position, the parent frame, the depth and the slot of the parent that holds it.
\<close>

datatype node = Node (n_frame: int) (n_page: nat) (n_parent: int) (n_depth: nat) (n_offset: nat)

text \<open>
  The frames below \<open>f\<close> in the order in which the depth-first search enters them, for
  \<open>lv\<close> further levels.
\<close>

fun subtree :: "geometry \<Rightarrow> (int \<Rightarrow> int) \<Rightarrow> nat \<Rightarrow> int \<Rightarrow> nat \<Rightarrow> nat \<Rightarrow> node list" where
  "subtree g r 0 f cv depth = []"
| "subtree g r (Suc lv) f cv depth =
     concat (map (\<lambda>i. if r (f * int (PAGE_SIZE g) + int i) = 0 then []
                       else Node (r (f * int (PAGE_SIZE g) + int i)) (cv * PAGE_SIZE g + i)
                              f (depth + 1) i
                            # subtree g r lv (r (f * int (PAGE_SIZE g) + int i))
                                (cv * PAGE_SIZE g + i) (depth + 1))
                 [0..<PAGE_SIZE g])"

definition child_nodes ::
  "geometry \<Rightarrow> (int \<Rightarrow> int) \<Rightarrow> nat \<Rightarrow> int \<Rightarrow> nat \<Rightarrow> nat \<Rightarrow> nat \<Rightarrow> node list" where
  "child_nodes g r lv f cv depth i =
     (if r (f * int (PAGE_SIZE g) + int i) = 0 then []
      else Node (r (f * int (PAGE_SIZE g) + int i)) (cv * PAGE_SIZE g + i) f (depth + 1) i
           # subtree g r lv (r (f * int (PAGE_SIZE g) + int i)) (cv * PAGE_SIZE g + i)
               (depth + 1))"



text \<open>An empty table that the finder may take: not the root, not the protected frame.\<close>

definition is_candidate :: "geometry \<Rightarrow> (int \<Rightarrow> int) \<Rightarrow> int \<Rightarrow> node \<Rightarrow> bool" where
  "is_candidate g r protected n \<longleftrightarrow>
     n_depth n \<noteq> TABLES_DEPTH g \<and> n_frame n \<noteq> 0 \<and> n_frame n \<noteq> protected \<and>
     frame_zero g r (n_frame n)"

definition slot_of :: "geometry \<Rightarrow> node \<Rightarrow> int" where
  "slot_of g n = n_parent n * int (PAGE_SIZE g) + int (n_offset n)"

text \<open>
  The effect of the search on its arguments, frame by frame: the parent's loop records the
  largest frame index, then the frame is entered.
\<close>

definition note_frame :: "int \<Rightarrow> SearchArguments \<Rightarrow> SearchArguments" where
  "note_frame f args = (if f \<ge> maxFrame args then args\<lparr>maxFrame := f\<rparr> else args)"

definition enter_frame ::
  "geometry \<Rightarrow> (int \<Rightarrow> int) \<Rightarrow> node \<Rightarrow> SearchArguments \<Rightarrow> SearchArguments" where
  "enter_frame g r n args =
     (if n_depth n = TABLES_DEPTH g
      then update_max_cyclic_distance g args (n_frame n) (n_page n) (n_parent n) (n_offset n)
      else if is_candidate g r (currentFrame args) n
      then args\<lparr>emptyFrame := n_frame n, priority := 1\<rparr>
      else args)"

fun dfs_run ::
  "geometry \<Rightarrow> (int \<Rightarrow> int) \<Rightarrow> node list \<Rightarrow> SearchArguments \<Rightarrow> SearchArguments \<times> node option"
where
  "dfs_run g r [] args = (args, None)"
| "dfs_run g r (n # ns) args =
     (let a = enter_frame g r n (note_frame (n_frame n) args)
      in if priority a = 1 then (a, Some n) else dfs_run g r ns a)"

definition unlinked :: "geometry \<Rightarrow> (int \<Rightarrow> int) \<Rightarrow> node option \<Rightarrow> (int \<Rightarrow> int)" where
  "unlinked g r found = (case found of None \<Rightarrow> r | Some n \<Rightarrow> r(slot_of g n := 0))"

text \<open>
  The outcome \<open>out\<close> of a search started in the memory \<open>s\<close> agrees with the result \<open>res\<close>
  of \<open>dfs_run\<close>: same arguments, the found frame unlinked, the backing store untouched.
\<close>

definition dfs_result_ok ::
  "geometry \<Rightarrow> pm_state \<Rightarrow> SearchArguments \<times> node option \<Rightarrow> SearchArguments \<times> pm_state \<Rightarrow> bool"
where
  "dfs_result_ok g s res out \<longleftrightarrow>
     fst out = fst res \<and> ram (snd out) = unlinked g (ram s) (snd res) \<and>
     swapFile (snd out) = swapFile s"



definition same_victim :: "SearchArguments \<Rightarrow> SearchArguments \<Rightarrow> bool" where
  "same_victim a b \<longleftrightarrow>
     maxCyclicFrame a = maxCyclicFrame b \<and> maxCyclicPage a = maxCyclicPage b \<and>
     maxCyclicParent a = maxCyclicParent b \<and> maxCyclicDist a = maxCyclicDist b"





section \<open>The invariant of the page tables\<close>

text \<open>
  Two paths of the tree never lead to the same frame: the tables form a tree in which
  every frame has one place (so no frame is held by two slots, and none is below itself).
\<close>

definition tree_inj :: "geometry \<Rightarrow> (int \<Rightarrow> int) \<Rightarrow> bool" where
  "tree_inj g r \<longleftrightarrow>
     (\<forall>js ks f. valid_path g js \<and> valid_path g ks \<and>
                walk g r 0 js = Some f \<and> walk g r 0 ks = Some f \<longrightarrow> js = ks)"

















section \<open>Basic facts about the physical memory operations\<close>

lemma PMread_simps [simp]:
  "fst (PMread pa s) = ram s pa"
  "ram (snd (PMread pa s)) = ram s"
  "swapFile (snd (PMread pa s)) = swapFile s"
  "pm_trace (snd (PMread pa s)) = pm_trace s @ [EvRead pa]"
  by (simp_all add: PMread_def)

lemma PMwrite_simps [simp]:
  "ram (PMwrite pa w s) = (ram s)(pa := w)"
  "swapFile (PMwrite pa w s) = swapFile s"
  "pm_trace (PMwrite pa w s) = pm_trace s @ [EvWrite pa w]"
  by (simp_all add: PMwrite_def)

lemma PMevict_simps [simp]:
  "ram (PMevict g f p s) = ram s"
  "swapFile (PMevict g f p s) =
     (swapFile s)(p \<mapsto> (\<lambda>off. ram s (f * int (PAGE_SIZE g) + int off)))"
  "pm_trace (PMevict g f p s) = pm_trace s @ [EvEvict f p]"
  by (simp_all add: PMevict_def)

lemma PMrestore_simps [simp]:
  "swapFile (PMrestore g f p s) = swapFile s"
  "pm_trace (PMrestore g f p s) = pm_trace s @ [EvRestore f p]"
  by (simp_all add: PMrestore_def)

lemma PAGE_SIZE_pos [simp]: "0 < PAGE_SIZE g"
  by (simp add: PAGE_SIZE_def)

subsection \<open>The trace only grows\<close>

lemma prefix_snoc_trans: "prefix xs ys \<Longrightarrow> prefix xs (ys @ zs)"
  by (simp add: prefix_prefix)

lemma frame_is_empty_trace:
  "prefix (pm_trace s) (pm_trace (snd (frame_is_empty g f is s)))"
proof (induction "is" arbitrary: s)
  case Nil
  show ?case by simp
next
  case (Cons i "is")
  show ?case
    using Cons.IH [of "snd (PMread (f * int (PAGE_SIZE g) + int i) s)"]
    by (auto simp: split_def Let_def dest: append_prefixD)
qed

lemma fold_PMwrite_trace:
  "prefix (pm_trace s) (pm_trace (fold (\<lambda>j. PMwrite (a j) (w j)) js s))"
proof (induction js arbitrary: s)
  case Nil
  show ?case by simp
next
  case (Cons j js)
  show ?case using Cons.IH [of "PMwrite (a j) (w j) s"]
    by (auto dest: append_prefixD)
qed

lemma empty_frame_not_found_trace:
  "prefix (pm_trace s) (pm_trace (snd (empty_frame_not_found g args s)))"
  by (simp add: empty_frame_not_found_def Let_def prefix_snoc_trans)

lemma find_next_frame_trace:
  "prefix (pm_trace s) (pm_trace (snd (find_next_frame g args f cv parent depth off s)))"
  and search_slots_trace:
  "prefix (pm_trace s) (pm_trace (snd (snd (search_slots g args f cv depth is s))))"
proof (induction g args f cv parent depth off s and g args f cv depth "is" s
       rule: find_next_frame_search_slots.induct)
  case (1 g args rootFrame currentVirtual parent depth offset s)
  show ?case
  proof (cases "depth = TABLES_DEPTH g \<or> TABLES_DEPTH g < depth")
    case True
    then show ?thesis by (auto simp: find_next_frame.simps)
  next
    case False
    obtain e s1 where e: "frame_is_empty g rootFrame [0..<PAGE_SIZE g] s = (e, s1)"
      by (cases "frame_is_empty g rootFrame [0..<PAGE_SIZE g] s")
    have p1: "prefix (pm_trace s) (pm_trace s1)"
      using frame_is_empty_trace [of s g rootFrame "[0..<PAGE_SIZE g]"] e by simp
    show ?thesis
    proof (cases "rootFrame \<noteq> 0 \<and> rootFrame \<noteq> currentFrame args \<and> e")
      case True
      with False e p1 show ?thesis
        by (simp add: find_next_frame.simps prefix_snoc_trans)
    next
      case nc: False
      obtain rt a2 s2 where
        ss: "search_slots g args rootFrame currentVirtual depth [0..<PAGE_SIZE g] s1 = (rt, a2, s2)"
        by (cases "search_slots g args rootFrame currentVirtual depth [0..<PAGE_SIZE g] s1")
      have "prefix (pm_trace s1) (pm_trace s2)"
        using "1.IH" [of e s1] False e nc ss by simp
      with p1 have p2: "prefix (pm_trace s) (pm_trace s2)"
        by (rule prefix_order.trans)
      have p3: "prefix (pm_trace s2) (pm_trace (snd (empty_frame_not_found g a2 s2)))"
        by (rule empty_frame_not_found_trace)
      have fnf: "find_next_frame g args rootFrame currentVirtual parent depth offset s =
                 (if rt then (a2, s2) else if rootFrame = 0 then empty_frame_not_found g a2 s2
                  else (a2, s2))"
        using False e nc ss by (subst find_next_frame.simps) auto
      show ?thesis
        unfolding fnf using p2 p3 by (auto intro: prefix_order.trans)
    qed
  qed
next
  case (2 g args rootFrame currentVirtual depth s)
  show ?case by simp
next
  case (3 g args rootFrame currentVirtual depth i "is" s)
  obtain x y where r: "PMread (rootFrame * int (PAGE_SIZE g) + int i) s = (x, y)"
    by (cases "PMread (rootFrame * int (PAGE_SIZE g) + int i) s")
  have py: "prefix (pm_trace s) (pm_trace y)"
    using r by (auto simp: PMread_def)
  show ?case
  proof (cases "x = 0")
    case True
    then show ?thesis
      using "3.IH"(3) [of x y] r py by (auto intro: prefix_order.trans)
  next
    case False
    obtain xa ya where f: "find_next_frame g
            (if maxFrame args \<le> x then args\<lparr>maxFrame := x\<rparr> else args) x
            (currentVirtual * PAGE_SIZE g + i) rootFrame (depth + 1) i y = (xa, ya)"
      by (cases "find_next_frame g
            (if maxFrame args \<le> x then args\<lparr>maxFrame := x\<rparr> else args) x
            (currentVirtual * PAGE_SIZE g + i) rootFrame (depth + 1) i y")
    have "prefix (pm_trace y) (pm_trace ya)"
      using "3.IH"(1) [of x y] r False f by simp
    with py have pya: "prefix (pm_trace s) (pm_trace ya)"
      by (rule prefix_order.trans)
    show ?thesis
    proof (cases "priority xa = 1")
      case True
      then show ?thesis using r False f pya by simp
    next
      case p: False
      have "prefix (pm_trace ya)
              (pm_trace (snd (snd (search_slots g xa rootFrame currentVirtual depth is ya))))"
        using "3.IH"(2) [of x y xa ya] r False f p by simp
      with pya show ?thesis using r False f p
        by (auto intro: prefix_order.trans)
    qed
  qed
qed

lemma zero_frame_trace: "prefix (pm_trace s) (pm_trace (zero_frame g f s))"
  unfolding zero_frame_def by (rule fold_PMwrite_trace)

lemma walk_step_trace:
  "prefix (pm_trace (snd (snd st))) (pm_trace (snd (snd (walk_step g pg offs i st))))"
proof -
  obtain args nf0 s where st: "st = (args, nf0, s)" by (cases st) auto
  let ?s1 = "snd (PMread (currentFrame args * int (PAGE_SIZE g) + int (offs ! i)) s)"
  have p1: "prefix (pm_trace s) (pm_trace ?s1)" by simp
  show ?thesis
  proof (cases "ram s (currentFrame args * int (PAGE_SIZE g) + int (offs ! i)) = 0")
    case False
    then show ?thesis using st by (simp add: walk_step_def PMread_def)
  next
    case True
    obtain a1 s2 where f: "find_next_frame g args 0 0 0 0 0 ?s1 = (a1, s2)"
      by (cases "find_next_frame g args 0 0 0 0 0 ?s1")
    have p2: "prefix (pm_trace ?s1) (pm_trace s2)"
      using find_next_frame_trace [of ?s1 g args 0 0 0 0 0] f by simp
    have p12: "prefix (pm_trace s) (pm_trace s2)"
      using p1 p2 by (rule prefix_order.trans)
    have p3: "\<And>a w. prefix (pm_trace s) (pm_trace (PMwrite a w s2))"
      using p12 by (simp add: prefix_snoc_trans)
    have p4: "\<And>a w f p. prefix (pm_trace s) (pm_trace (PMrestore g f p (PMwrite a w s2)))"
      using p12 by (simp add: prefix_snoc_trans)
    have p5: "\<And>a w f. prefix (pm_trace s) (pm_trace (zero_frame g f (PMwrite a w s2)))"
      using p3 zero_frame_trace by (blast intro: prefix_order.trans)
    show ?thesis using st True f p4 p5
      by (simp add: walk_step_def PMread_def Let_def)
  qed
qed

lemma walk_steps_Suc:
  "walk_steps g V offs (Suc n) s =
     walk_step g (V div 2 ^ OFFSET_WIDTH g) offs n (walk_steps g V offs n s)"
  by (simp add: walk_steps_def Let_def)

lemma walk_steps_0:
  "walk_steps g V offs 0 s = (initial_args (V div 2 ^ OFFSET_WIDTH g), 0, s)"
  by (simp add: walk_steps_def Let_def)

lemma walk_steps_trace:
  "prefix (pm_trace s) (pm_trace (snd (snd (walk_steps g V offs n s))))"
proof (induction n)
  case 0
  show ?case by (simp add: walk_steps_0)
next
  case (Suc n)
  show ?case unfolding walk_steps_Suc
    using Suc walk_step_trace [of "walk_steps g V offs n s" g "V div 2 ^ OFFSET_WIDTH g" offs n]
    by (rule prefix_order.trans)
qed

lemma find_physical_address_trace:
  "prefix (pm_trace s) (pm_trace (snd (find_physical_address g V offs s)))"
  using walk_steps_trace [of s g V offs "TABLES_DEPTH g"]
  by (simp add: find_physical_address_def split_def)

section \<open>Status of read and write\<close>



section \<open>Read and write share the page walk\<close>

text \<open>
  Claim C10. For an address in range, \<^verbatim>\<open>VMread\<close> and \<^verbatim>\<open>VMwrite\<close> started in the
  same state run the same \<^verbatim>\<open>find_physical_address\<close>: they perform the same sequence
  \<open>evs\<close> of physical memory operations, reach the same memory \<open>s1\<close> and the same leaf
  frame \<open>F\<close>, and differ only in the last operation, a read or a write of the word at
  \<open>F * PAGE_SIZE + offsets[TABLES_DEPTH]\<close>. A successful read may change the physical
  memory and evict a page: in the small geometry, after \<^verbatim>\<open>VMinitialize\<close> and a read of
  address 0, the read of address 2 changes the word at physical address 0 and evicts
  page 0 from frame 1.
\<close>

theorem VMread_VMwrite_same_walk:
  "(V < VIRTUAL_MEMORY_SIZE g \<and> V div 2 ^ OFFSET_WIDTH g < NUM_PAGES g \<longrightarrow>
      (\<exists>F s1 evs.
          find_physical_address g V (init_offsets g V) s = (F, s1) \<and>
          pm_trace s1 = pm_trace s @ evs \<and>
          VMread g V v s =
            (1, ram s1 (F * int (PAGE_SIZE g) + int (init_offsets g V ! TABLES_DEPTH g)),
             s1\<lparr>pm_trace := pm_trace s @ evs @
                   [EvRead (F * int (PAGE_SIZE g) + int (init_offsets g V ! TABLES_DEPTH g))]\<rparr>) \<and>
          VMwrite g V x s =
            (1, s1\<lparr>ram := (ram s1)
                      (F * int (PAGE_SIZE g) + int (init_offsets g V ! TABLES_DEPTH g) := x),
                    pm_trace := pm_trace s @ evs @
                      [EvWrite (F * int (PAGE_SIZE g) + int (init_offsets g V ! TABLES_DEPTH g))
                         x]\<rparr>))) \<and>
   (fst (VMread g_small 2 0 s_one) = 1 \<and>
    ram (snd (snd (VMread g_small 2 0 s_one))) 0 \<noteq> ram s_one 0 \<and>
    EvEvict 1 0 \<in> set (drop (length (pm_trace s_one))
                          (pm_trace (snd (snd (VMread g_small 2 0 s_one))))))"
proof (intro conjI impI)
  assume inr: "V < VIRTUAL_MEMORY_SIZE g \<and> V div 2 ^ OFFSET_WIDTH g < NUM_PAGES g"
  obtain F s1 where f: "find_physical_address g V (init_offsets g V) s = (F, s1)"
    by (cases "find_physical_address g V (init_offsets g V) s")
  have "prefix (pm_trace s) (pm_trace s1)"
    using find_physical_address_trace [of s g V "init_offsets g V"] f by simp
  then obtain evs where evs: "pm_trace s1 = pm_trace s @ evs"
    by (auto simp: prefix_def)
  have "VMread g V v s =
          (1, ram s1 (F * int (PAGE_SIZE g) + int (init_offsets g V ! TABLES_DEPTH g)),
           s1\<lparr>pm_trace := pm_trace s @ evs @
                 [EvRead (F * int (PAGE_SIZE g) + int (init_offsets g V ! TABLES_DEPTH g))]\<rparr>)"
    using inr f evs by (simp add: VMread_def Let_def PMread_def)
  moreover have "VMwrite g V x s =
          (1, s1\<lparr>ram := (ram s1)
                    (F * int (PAGE_SIZE g) + int (init_offsets g V ! TABLES_DEPTH g) := x),
                  pm_trace := pm_trace s @ evs @
                    [EvWrite (F * int (PAGE_SIZE g) + int (init_offsets g V ! TABLES_DEPTH g))
                       x]\<rparr>)"
    using inr f evs by (simp add: VMwrite_def Let_def PMwrite_def)
  ultimately show "\<exists>F s1 evs.
          find_physical_address g V (init_offsets g V) s = (F, s1) \<and>
          pm_trace s1 = pm_trace s @ evs \<and>
          VMread g V v s =
            (1, ram s1 (F * int (PAGE_SIZE g) + int (init_offsets g V ! TABLES_DEPTH g)),
             s1\<lparr>pm_trace := pm_trace s @ evs @
                   [EvRead (F * int (PAGE_SIZE g) + int (init_offsets g V ! TABLES_DEPTH g))]\<rparr>) \<and>
          VMwrite g V x s =
            (1, s1\<lparr>ram := (ram s1)
                      (F * int (PAGE_SIZE g) + int (init_offsets g V ! TABLES_DEPTH g) := x),
                    pm_trace := pm_trace s @ evs @
                      [EvWrite (F * int (PAGE_SIZE g) + int (init_offsets g V ! TABLES_DEPTH g))
                         x]\<rparr>)"
    using f evs by blast
next
  show "fst (VMread g_small 2 0 s_one) = 1" by code_simp
next
  show "ram (snd (snd (VMread g_small 2 0 s_one))) 0 \<noteq> ram s_one 0" by code_simp
next
  show "EvEvict 1 0 \<in> set (drop (length (pm_trace s_one))
                          (pm_trace (snd (snd (VMread g_small 2 0 s_one)))))"
    by code_simp
qed

theorem VMread_VMwrite_same_walk_witness:
  "(2 < VIRTUAL_MEMORY_SIZE g_small \<and> 2 div 2 ^ OFFSET_WIDTH g_small < NUM_PAGES g_small) \<and>
   (\<exists>F s1 evs.
       find_physical_address g_small 2 (init_offsets g_small 2) s_one = (F, s1) \<and>
       pm_trace s1 = pm_trace s_one @ evs \<and>
       VMread g_small 2 0 s_one =
         (1, ram s1 (F * int (PAGE_SIZE g_small)
                       + int (init_offsets g_small 2 ! TABLES_DEPTH g_small)),
          s1\<lparr>pm_trace := pm_trace s_one @ evs @
                [EvRead (F * int (PAGE_SIZE g_small)
                           + int (init_offsets g_small 2 ! TABLES_DEPTH g_small))]\<rparr>) \<and>
       VMwrite g_small 2 9 s_one =
         (1, s1\<lparr>ram := (ram s1)
                   (F * int (PAGE_SIZE g_small)
                      + int (init_offsets g_small 2 ! TABLES_DEPTH g_small) := 9),
                 pm_trace := pm_trace s_one @ evs @
                   [EvWrite (F * int (PAGE_SIZE g_small)
                               + int (init_offsets g_small 2 ! TABLES_DEPTH g_small)) 9]\<rparr>))"
proof -
  have a: "2 < VIRTUAL_MEMORY_SIZE g_small \<and>
           2 div 2 ^ OFFSET_WIDTH g_small < NUM_PAGES g_small"
    by (simp add: VIRTUAL_MEMORY_SIZE_def NUM_PAGES_def PAGE_SIZE_def g_small_def)
  show ?thesis
    using a VMread_VMwrite_same_walk [where V = 2 and g = g_small and s = s_one and v = 0 and x = 9] by blast
qed

section \<open>The search computes \<open>dfs_run\<close>\<close>

lemma frame_zero_iff: "frame_zero g r f \<longleftrightarrow> (\<forall>i < PAGE_SIZE g. r (f * int (PAGE_SIZE g) + int i) = 0)"
  by (auto simp: frame_zero_def list_all_iff)

lemma subtree_Suc: "subtree g r (Suc lv) f cv depth = concat (map (child_nodes g r lv f cv depth) [0..<PAGE_SIZE g])"
  by (simp add: child_nodes_def [abs_def])

lemma frame_is_empty_result:
  "fst (frame_is_empty g f is s) = (\<forall>i \<in> set is. ram s (f * int (PAGE_SIZE g) + int i) = 0) \<and>
   ram (snd (frame_is_empty g f is s)) = ram s \<and>
   swapFile (snd (frame_is_empty g f is s)) = swapFile s"
proof (induction "is" arbitrary: s)
  case Nil
  show ?case by simp
next
  case (Cons i "is")
  show ?case
    using Cons.IH [of "snd (PMread (f * int (PAGE_SIZE g) + int i) s)"]
    by (auto simp: split_def Let_def)
qed

lemma frame_is_empty_upt:
  "fst (frame_is_empty g f [0..<PAGE_SIZE g] s) = frame_zero g (ram s) f"
  by (auto simp: frame_is_empty_result frame_zero_iff)

lemma priority_note_frame [simp]: "priority (note_frame f a) = priority a"
  and currentFrame_note_frame [simp]: "currentFrame (note_frame f a) = currentFrame a"
  by (simp_all add: note_frame_def)

lemma priority_update_max [simp]:
  "priority (update_max_cyclic_distance g a f cv p off) = priority a"
  by (simp add: update_max_cyclic_distance_def Let_def)

lemma enter_frame_priority:
  "priority a \<noteq> 1 \<Longrightarrow> priority (enter_frame g r n a) = 1 \<longleftrightarrow>
     n_depth n \<noteq> TABLES_DEPTH g \<and> is_candidate g r (currentFrame a) n"
  by (simp add: enter_frame_def)

lemma dfs_run_priority:
  "priority args \<noteq> 1 \<Longrightarrow> (priority (fst (dfs_run g r ns args)) = 1) = (snd (dfs_run g r ns args) \<noteq> None)"
  by (induction ns arbitrary: args) (auto simp: Let_def)

lemma dfs_run_append:
  "dfs_run g r (xs @ ys) args =
     (case dfs_run g r xs args of
        (a, Some n) \<Rightarrow> (a, Some n)
      | (a, None) \<Rightarrow> dfs_run g r ys a)"
  by (induction xs arbitrary: args) (auto simp: Let_def)

lemma dfs_result_okI:
  "fst out = fst res \<Longrightarrow> ram (snd out) = unlinked g (ram s) (snd res) \<Longrightarrow>
   swapFile (snd out) = swapFile s \<Longrightarrow> dfs_result_ok g s res out"
  by (simp add: dfs_result_ok_def)

lemma find_next_frame_refines:
  "f \<noteq> 0 \<longrightarrow> depth \<le> TABLES_DEPTH g \<longrightarrow> priority args \<noteq> 1 \<longrightarrow>
     dfs_result_ok g s
       (let a = enter_frame g (ram s) (Node f cv parent depth off) args
        in if priority a = 1 then (a, Some (Node f cv parent depth off))
           else dfs_run g (ram s) (subtree g (ram s) (TABLES_DEPTH g - depth) f cv depth) a)
       (find_next_frame g args f cv parent depth off s)"
  and search_slots_refines:
  "depth < TABLES_DEPTH g \<longrightarrow> priority args \<noteq> 1 \<longrightarrow>
     dfs_result_ok g s
       (dfs_run g (ram s)
          (concat (map (child_nodes g (ram s) (TABLES_DEPTH g - depth - 1) f cv depth) is)) args)
       (snd (search_slots g args f cv depth is s)) \<and>
     fst (search_slots g args f cv depth is s) =
       (snd (dfs_run g (ram s)
          (concat (map (child_nodes g (ram s) (TABLES_DEPTH g - depth - 1) f cv depth) is)) args)
        \<noteq> None)"
proof (induction g args f cv parent depth off s and g args f cv depth "is" s
       rule: find_next_frame_search_slots.induct)
  case (1 g args rootFrame currentVirtual parent depth offset s)
  let ?n = "Node rootFrame currentVirtual parent depth offset"
  show ?case
  proof (intro impI)
    assume nz: "rootFrame \<noteq> 0" and dle: "depth \<le> TABLES_DEPTH g" and pr: "priority args \<noteq> 1"
    show "dfs_result_ok g s
       (let a = enter_frame g (ram s) ?n args
        in if priority a = 1 then (a, Some ?n)
           else dfs_run g (ram s)
                  (subtree g (ram s) (TABLES_DEPTH g - depth) rootFrame currentVirtual depth) a)
       (find_next_frame g args rootFrame currentVirtual parent depth offset s)"
    proof (cases "depth = TABLES_DEPTH g")
      case True
      then show ?thesis using pr
        by (simp add: find_next_frame.simps enter_frame_def dfs_result_ok_def unlinked_def Let_def)
    next
      case False
      with dle have dlt: "depth < TABLES_DEPTH g" by simp
      obtain e s1 where e: "frame_is_empty g rootFrame [0..<PAGE_SIZE g] s = (e, s1)"
        by (cases "frame_is_empty g rootFrame [0..<PAGE_SIZE g] s")
      have e_eq: "e = frame_zero g (ram s) rootFrame"
        using frame_is_empty_upt [of g rootFrame s] e by simp
      have s1: "ram s1 = ram s" "swapFile s1 = swapFile s"
        using frame_is_empty_result [of g rootFrame "[0..<PAGE_SIZE g]" s] e by simp_all
      show ?thesis
      proof (cases "rootFrame \<noteq> currentFrame args \<and> e")
        case True
        then have c: "is_candidate g (ram s) (currentFrame args) ?n"
          using nz False e_eq by (simp add: is_candidate_def)
        have "find_next_frame g args rootFrame currentVirtual parent depth offset s =
                (args\<lparr>emptyFrame := rootFrame, priority := 1\<rparr>,
                 PMwrite (parent * int (PAGE_SIZE g) + int offset) 0 s1)"
          using True nz False dlt e by (subst find_next_frame.simps) simp
        then show ?thesis using c False s1
          by (simp add: enter_frame_def dfs_result_ok_def unlinked_def slot_of_def Let_def)
      next
        case nc: False
        then have c: "\<not> is_candidate g (ram s) (currentFrame args) ?n"
          using e_eq by (auto simp: is_candidate_def)
        have ent: "enter_frame g (ram s) ?n args = args"
          using c False by (simp add: enter_frame_def)
        obtain rt a2 s2 where
          ss: "search_slots g args rootFrame currentVirtual depth [0..<PAGE_SIZE g] s1 = (rt, a2, s2)"
          by (cases "search_slots g args rootFrame currentVirtual depth [0..<PAGE_SIZE g] s1")
        have ih: "dfs_result_ok g s1
           (dfs_run g (ram s1)
              (concat (map (child_nodes g (ram s1) (TABLES_DEPTH g - depth - 1)
                              rootFrame currentVirtual depth) [0..<PAGE_SIZE g])) args)
           (a2, s2)"
          using "1.IH" [of e s1] False dlt e nc ss pr by simp
        have lv: "TABLES_DEPTH g - depth = Suc (TABLES_DEPTH g - depth - 1)"
          using dlt by simp
        have sub: "subtree g (ram s) (TABLES_DEPTH g - depth) rootFrame currentVirtual depth =
                   concat (map (child_nodes g (ram s) (TABLES_DEPTH g - depth - 1)
                              rootFrame currentVirtual depth) [0..<PAGE_SIZE g])"
          by (subst lv) (rule subtree_Suc)
        have fnf: "find_next_frame g args rootFrame currentVirtual parent depth offset s = (a2, s2)"
          using False dlt e nc ss nz by (subst find_next_frame.simps) auto
        show ?thesis
          using ih s1 pr unfolding fnf ent sub
          by (simp add: dfs_result_ok_def Let_def)
      qed
    qed
  qed
next
  case (2 g args rootFrame currentVirtual depth s)
  show ?case by (simp add: dfs_result_ok_def unlinked_def)
next
  case (3 g args rootFrame currentVirtual depth i "is" s)
  let ?lv = "TABLES_DEPTH g - depth - 1"
  let ?x = "ram s (rootFrame * int (PAGE_SIZE g) + int i)"
  let ?y = "snd (PMread (rootFrame * int (PAGE_SIZE g) + int i) s)"
  have r: "PMread (rootFrame * int (PAGE_SIZE g) + int i) s = (?x, ?y)"
    by (simp add: PMread_def)
  have y: "ram ?y = ram s" "swapFile ?y = swapFile s" by simp_all
  show ?case
  proof (intro impI)
    assume dlt: "depth < TABLES_DEPTH g" and pr: "priority args \<noteq> 1"
    let ?rest = "concat (map (child_nodes g (ram s) ?lv rootFrame currentVirtual depth) is)"
    have cc: "concat (map (child_nodes g (ram s) ?lv rootFrame currentVirtual depth) (i # is)) =
              child_nodes g (ram s) ?lv rootFrame currentVirtual depth i @ ?rest"
      by simp
    show "dfs_result_ok g s
       (dfs_run g (ram s)
          (concat (map (child_nodes g (ram s) ?lv rootFrame currentVirtual depth) (i # is))) args)
       (snd (search_slots g args rootFrame currentVirtual depth (i # is) s)) \<and>
     fst (search_slots g args rootFrame currentVirtual depth (i # is) s) =
       (snd (dfs_run g (ram s)
          (concat (map (child_nodes g (ram s) ?lv rootFrame currentVirtual depth) (i # is))) args)
        \<noteq> None)"
    proof (cases "?x = 0")
      case True
      have ch: "child_nodes g (ram s) ?lv rootFrame currentVirtual depth i = []"
        using True by (simp add: child_nodes_def)
      have ss: "search_slots g args rootFrame currentVirtual depth (i # is) s =
                search_slots g args rootFrame currentVirtual depth is ?y"
        using True by (simp add: PMread_def)
      have "dfs_result_ok g ?y
         (dfs_run g (ram ?y)
           (concat (map (child_nodes g (ram ?y) ?lv rootFrame currentVirtual depth) is)) args)
         (snd (search_slots g args rootFrame currentVirtual depth is ?y)) \<and>
        fst (search_slots g args rootFrame currentVirtual depth is ?y) =
         (snd (dfs_run g (ram ?y)
           (concat (map (child_nodes g (ram ?y) ?lv rootFrame currentVirtual depth) is)) args)
          \<noteq> None)"
        using "3.IH"(3) [of ?x ?y] r True dlt pr by simp
      then show ?thesis
        unfolding ss cc ch y by (simp add: dfs_result_ok_def)
    next
      case False
      let ?a1 = "note_frame ?x args"
      let ?n = "Node ?x (currentVirtual * PAGE_SIZE g + i) rootFrame (depth + 1) i"
      let ?sub = "subtree g (ram s) ?lv ?x (currentVirtual * PAGE_SIZE g + i) (depth + 1)"
      have a1: "(if maxFrame args \<le> ?x then args\<lparr>maxFrame := ?x\<rparr> else args) = ?a1"
        by (simp add: note_frame_def)
      obtain xa ya where f: "find_next_frame g ?a1 ?x
            (currentVirtual * PAGE_SIZE g + i) rootFrame (depth + 1) i ?y = (xa, ya)"
        by (cases "find_next_frame g ?a1 ?x
            (currentVirtual * PAGE_SIZE g + i) rootFrame (depth + 1) i ?y")
      have ch: "child_nodes g (ram s) ?lv rootFrame currentVirtual depth i = ?n # ?sub"
        using False by (simp add: child_nodes_def)
      let ?res1 = "let a = enter_frame g (ram s) ?n ?a1
                   in if priority a = 1 then (a, Some ?n) else dfs_run g (ram s) ?sub a"
      have lv': "TABLES_DEPTH g - (depth + 1) = ?lv" by simp
      have d1: "depth + 1 \<le> TABLES_DEPTH g" using dlt by simp
      have p1: "priority ?a1 \<noteq> 1" using pr by simp
      have ih1: "dfs_result_ok g ?y ?res1 (xa, ya)"
        using "3.IH"(1) [OF r [symmetric] False, unfolded a1 y lv' f, rule_format, OF False d1 p1] .
      have run1: "dfs_run g (ram s) (?n # ?sub) args = ?res1"
        by (simp add: Let_def)
      have pr1: "(priority (fst ?res1) = 1) = (snd ?res1 \<noteq> None)"
        using dfs_run_priority [of args g "ram s" "?n # ?sub"] pr unfolding run1 .
      have xa: "xa = fst ?res1" and ya: "ram ya = unlinked g (ram s) (snd ?res1)"
        "swapFile ya = swapFile s"
        using ih1 by (simp_all add: dfs_result_ok_def)
      have whole: "dfs_run g (ram s)
          (concat (map (child_nodes g (ram s) ?lv rootFrame currentVirtual depth) (i # is))) args
          = (case ?res1 of (a, Some n) \<Rightarrow> (a, Some n) | (a, None) \<Rightarrow> dfs_run g (ram s) ?rest a)"
        using dfs_run_append [of g "ram s" "?n # ?sub" ?rest args] unfolding run1 cc ch
        by simp
      show ?thesis
      proof (cases "priority xa = 1")
        case True
        have ss: "search_slots g args rootFrame currentVirtual depth (i # is) s = (True, xa, ya)"
          using False f True a1 by (simp add: PMread_def)
        from True xa pr1 obtain n where sn: "snd ?res1 = Some n" by auto
        then have res1: "?res1 = (xa, Some n)" using xa by (metis prod.collapse)
        show ?thesis unfolding ss whole res1
          using ya sn by (simp add: dfs_result_ok_def)
      next
        case p: False
        have ss: "search_slots g args rootFrame currentVirtual depth (i # is) s =
                  search_slots g xa rootFrame currentVirtual depth is ya"
          using False f p a1 by (simp add: PMread_def)
        from p xa pr1 have sn: "snd ?res1 = None" by auto
        then have res1: "?res1 = (xa, None)" using xa by (metis prod.collapse)
        have yar: "ram ya = ram s" using ya sn by (simp add: unlinked_def)
        have ih2: "dfs_result_ok g ya (dfs_run g (ram ya)
            (concat (map (child_nodes g (ram ya) ?lv rootFrame currentVirtual depth) is)) xa)
           (snd (search_slots g xa rootFrame currentVirtual depth is ya)) \<and>
          fst (search_slots g xa rootFrame currentVirtual depth is ya) =
           (snd (dfs_run g (ram ya)
            (concat (map (child_nodes g (ram ya) ?lv rootFrame currentVirtual depth) is)) xa)
            \<noteq> None)"
          using "3.IH"(2) [of ?x ?y xa ya] r False f p dlt a1 by simp
        show ?thesis unfolding ss whole res1
          using ih2 yar ya(2) by (simp add: dfs_result_ok_def)
      qed
    qed
  qed
qed



lemma update_max_fields [simp]:
  "currentFrame (update_max_cyclic_distance g a f cv p off) = currentFrame a"
  "maxFrame (update_max_cyclic_distance g a f cv p off) = maxFrame a"
  "pageNumber (update_max_cyclic_distance g a f cv p off) = pageNumber a"
  "emptyFrame (update_max_cyclic_distance g a f cv p off) = emptyFrame a"
  by (simp_all add: update_max_cyclic_distance_def Let_def)










lemma same_victim_refl [simp]: "same_victim a a"
  by (simp add: same_victim_def)

















section \<open>Cyclic distance and the choice of the victim\<close>







section \<open>The priority rule of the finder\<close>



section \<open>Walks through the tables\<close>






lemma valid_path_Nil [simp]: "valid_path g []"
  by (simp add: valid_path_def)



lemma valid_path_Cons:
  "valid_path g (j # js) \<Longrightarrow> j < PAGE_SIZE g \<and> length js < TABLES_DEPTH g"
  by (auto simp: valid_path_def)


lemma tree_inj_root:
  "tree_inj g r \<Longrightarrow> valid_path g js \<Longrightarrow> walk g r 0 js = Some 0 \<Longrightarrow> js = []"
  unfolding tree_inj_def by (metis valid_path_Nil walk.simps(1))



section \<open>The frames of the search are the frames of the tree\<close>







section \<open>Removing and adding one frame of the tree\<close>










lemma swapFile_fold_PMwrite:
  "swapFile (fold (\<lambda>j. PMwrite (a j) (w j)) js s) = swapFile s"
  by (induction js arbitrary: s) auto



lemma swapFile_zero_frame [simp]: "swapFile (zero_frame g F s) = swapFile s"
  by (simp add: zero_frame_def swapFile_fold_PMwrite)








section \<open>The finder returns a frame that can be installed\<close>












section \<open>The page walk keeps the invariant\<close>







section \<open>Splitting a virtual address\<close>

lemma init_offsets_loop_length [simp]:
  "length (init_offsets_loop g n V offs) = length offs"
  by (induction n arbitrary: V offs) simp_all



lemma init_offsets_length [simp]: "length (init_offsets g V) = TABLES_DEPTH g + 1"
  unfolding init_offsets_def by (simp only: init_offsets_loop_length length_replicate)











section \<open>The interface keeps the invariant\<close>


lemma swapFile_VMinitialize [simp]: "swapFile (VMinitialize g s) = swapFile s"
  by (simp add: VMinitialize_def swapFile_fold_PMwrite)














section \<open>What a client observes\<close>







end
